theory Spec2Isabelle
  imports Main "HOL-Library.Word" "HOL-Library.AList"
begin

unbundle bit_operations_syntax

section \<open>The definition resolver of ModuleBuilderSupport.h\<close>

text \<open>
  The IR handles are opaque in the header: an operation and a block are identified by a
  number. A value is either the result of an operation or an argument of a block, the
  two cases \<open>getDefinition\<close> distinguishes with \<open>dyn_cast_or_null<BlockArgument>\<close>.
  The null value, which that cast also lets through to \<open>getDefiningOp\<close>, is left out:
  what the library does with it is not in the sources.
\<close>

type_synonym Operation = nat
type_synonym Block = nat

datatype Value =
    OpResult Operation nat
  | BlockArgument Block nat

text \<open>
  A branch operation is what \<open>getDefinition\<close> reads of it:
  \<open>getSuccessorOperands(i)\<close>, the operands forwarded to its \<open>i\<close>-th successor, if any.
\<close>

type_synonym BranchOp = "nat \<Rightarrow> Value list option"

text \<open>
  The control-flow graph as the queries of the source see it: \<open>isEntryBlock\<close>,
  \<open>getPredecessors\<close> (in the order the iteration yields them), the successor list
  \<open>succ_begin .. succ_end\<close> of a block and the branch operations \<open>walk\<close> visits in it.
\<close>

record IR =
  isEntryBlock :: "Block \<Rightarrow> bool"
  getPredecessors :: "Block \<Rightarrow> Block list"
  getSuccessors :: "Block \<Rightarrow> Block list"
  branchOps :: "Block \<Rightarrow> BranchOp list"

definition hasNoPredecessors :: "IR \<Rightarrow> Block \<Rightarrow> bool" where
  "hasNoPredecessors g b = (getPredecessors g b = [])"

definition getOwner :: "Value \<Rightarrow> Block" where
  "getOwner v = (case v of BlockArgument b i \<Rightarrow> b | OpResult op i \<Rightarrow> 0)"

definition getArgNumber :: "Value \<Rightarrow> nat" where
  "getArgNumber v = (case v of BlockArgument b i \<Rightarrow> i | OpResult op i \<Rightarrow> 0)"

text \<open>\<open>Value::getDefiningOp\<close>: the owner of an operation result, null for a block argument.\<close>

definition getDefiningOp :: "Value \<Rightarrow> Operation option" where
  "getDefiningOp v = (case v of OpResult op i \<Rightarrow> Some op | BlockArgument b i \<Rightarrow> None)"

text \<open>
  Results. An \<open>Operation *\<close> is \<open>None\<close> for \<open>nullptr\<close>. Indexing the successor operands
  out of range stops the program (the range's index assertion): the error
  \<open>OperandIndexOutOfRange\<close>. The recursion of the source has no bound, so the model
  counts the depth of the recursion: the outer \<open>None\<close> says that the given depth was
  not enough.
\<close>

datatype error = OperandIndexOutOfRange | MissingReturn

type_synonym result = "(error + Operation option) option"

datatype WalkResult = interrupt | advance

text \<open>
  The walk callback of the source returns \<open>WalkResult::interrupt()\<close> inside its loop and
  has no \<open>return\<close> after the loop (lines 29 to 49): what the walk reads when the
  callback reaches its end is not fixed by the source and depends on the build. It is
  a parameter of the model: \<open>Some advance\<close> or \<open>Some interrupt\<close> when the walk reads
  that value, \<open>None\<close> when the program stops there, which is the error \<open>MissingReturn\<close>.
\<close>

type_synonym CallbackEnd = "WalkResult option"

text \<open>
  The loop over \<open>pred->succ_begin() .. pred->succ_end()\<close> inside the walk callback,
  with \<open>found\<close> the variable captured by reference. \<open>rec\<close> is the recursive call.
  The successors come with their index \<open>it.getIndex()\<close>. After the loop the callback
  is at its end.
\<close>

fun succLoop ::
  "CallbackEnd \<Rightarrow> (Value \<Rightarrow> result) \<Rightarrow> Block \<Rightarrow> nat \<Rightarrow> BranchOp \<Rightarrow> (nat \<times> Block) list \<Rightarrow>
   Operation option \<Rightarrow> (error + WalkResult \<times> Operation option) option" where
  "succLoop atEnd rec block index branchInterface [] found =
     (case atEnd of
        None \<Rightarrow> Some (Inl MissingReturn)
      | Some w \<Rightarrow> Some (Inr (w, found)))"
| "succLoop atEnd rec block index branchInterface ((i, succ) # its) found =
     (if block \<noteq> succ then succLoop atEnd rec block index branchInterface its found
      else case branchInterface i of
        None \<Rightarrow> succLoop atEnd rec block index branchInterface its found
      | Some successorOperands \<Rightarrow>
          if length successorOperands \<le> index then Some (Inl OperandIndexOutOfRange)
          else (case rec (successorOperands ! index) of
            None \<Rightarrow> None
          | Some (Inl e) \<Rightarrow> Some (Inl e)
          | Some (Inr def) \<Rightarrow>
              if found \<noteq> None \<and> def \<noteq> found then Some (Inr (interrupt, found))
              else succLoop atEnd rec block index branchInterface its def))"

text \<open>\<open>pred->walk\<close>: the callback runs on each branch operation until it interrupts.\<close>

fun walk ::
  "CallbackEnd \<Rightarrow> (Value \<Rightarrow> result) \<Rightarrow> Block \<Rightarrow> nat \<Rightarrow> (nat \<times> Block) list \<Rightarrow> BranchOp list \<Rightarrow>
   Operation option \<Rightarrow> (error + Operation option) option" where
  "walk atEnd rec block index its [] found = Some (Inr found)"
| "walk atEnd rec block index its (branchInterface # ops) found =
     (case succLoop atEnd rec block index branchInterface its found of
        None \<Rightarrow> None
      | Some (Inl e) \<Rightarrow> Some (Inl e)
      | Some (Inr (interrupt, found')) \<Rightarrow> Some (Inr found')
      | Some (Inr (advance, found')) \<Rightarrow> walk atEnd rec block index its ops found')"

text \<open>
  The loop over \<open>block->getPredecessors()\<close>, with the variable \<open>result\<close>. When the
  loop is over the source returns \<open>nullptr\<close> (line 56), not \<open>result\<close>.
\<close>

fun predLoop ::
  "CallbackEnd \<Rightarrow> (Value \<Rightarrow> result) \<Rightarrow> IR \<Rightarrow> Block \<Rightarrow> nat \<Rightarrow> Block list \<Rightarrow>
   Operation option \<Rightarrow> result" where
  "predLoop atEnd rec g block index [] result = Some (Inr None)"
| "predLoop atEnd rec g block index (pred # preds) result =
     (case walk atEnd rec block index (enumerate 0 (getSuccessors g pred)) (branchOps g pred) None of
        None \<Rightarrow> None
      | Some (Inl e) \<Rightarrow> Some (Inl e)
      | Some (Inr found) \<Rightarrow>
          if result \<noteq> None \<and> found \<noteq> result then Some (Inr None)
          else predLoop atEnd rec g block index preds found)"

text \<open>
  \<open>getDefinition\<close>, with what the callback's end yields and the depth of recursion
  allowed as first arguments.
\<close>

fun getDefinition :: "CallbackEnd \<Rightarrow> nat \<Rightarrow> IR \<Rightarrow> Value \<Rightarrow> result" where
  "getDefinition atEnd 0 g val = None"
| "getDefinition atEnd (Suc n) g val =
     (case val of
        BlockArgument b i \<Rightarrow>
          (let block = getOwner val in
           if isEntryBlock g block then Some (Inr None)
           else if hasNoPredecessors g block then Some (Inr None)
           else predLoop atEnd (getDefinition atEnd n g) g block (getArgNumber val)
                  (getPredecessors g block) None)
      | OpResult op i \<Rightarrow> Some (Inr (getDefiningOp val)))"

text \<open>
  The typed variant: \<open>llvm::dyn_cast_or_null<OpTy>\<close> of the untyped result, with
  \<open>classof\<close> the kind test of \<open>OpTy\<close>.
\<close>

definition dyn_cast_or_null :: "(Operation \<Rightarrow> bool) \<Rightarrow> Operation option \<Rightarrow> Operation option" where
  "dyn_cast_or_null classof p =
     (case p of None \<Rightarrow> None | Some op \<Rightarrow> if classof op then Some op else None)"

definition getDefinitionTyped ::
  "(Operation \<Rightarrow> bool) \<Rightarrow> CallbackEnd \<Rightarrow> nat \<Rightarrow> IR \<Rightarrow> Value \<Rightarrow> result" where
  "getDefinitionTyped classof atEnd n g val =
     (case getDefinition atEnd n g val of
        None \<Rightarrow> None
      | Some (Inl e) \<Rightarrow> Some (Inl e)
      | Some (Inr p) \<Rightarrow> Some (Inr (dyn_cast_or_null classof p)))"

text \<open>
  The operands the loops of \<open>getDefinition\<close> reach from a block argument: \<open>c\<close> is
  forwarded to \<open>v\<close> when \<open>v\<close> is the argument \<open>index\<close> of a block that is not the
  entry block, and some branch operation walked in some predecessor passes \<open>c\<close> at
  position \<open>index\<close> to a successor edge that is this block. These are the values on
  which the source calls itself.
\<close>

definition forwards :: "IR \<Rightarrow> Value \<Rightarrow> Value \<Rightarrow> bool" where
  "forwards g v c =
     (case v of
        OpResult op i \<Rightarrow> False
      | BlockArgument block index \<Rightarrow>
          \<not> isEntryBlock g block \<and>
          (\<exists>pred \<in> set (getPredecessors g block).
           \<exists>branchInterface \<in> set (branchOps g pred).
           \<exists>(i, succ) \<in> set (enumerate 0 (getSuccessors g pred)).
             succ = block \<and>
             (case branchInterface i of
                None \<Rightarrow> False
              | Some successorOperands \<Rightarrow>
                  index < length successorOperands \<and> c = successorOperands ! index)))"




subsection \<open>Two small graphs\<close>

text \<open>
  Block 0 is the entry block; operation 7 in it produces a value that the branch at
  its end passes to the only argument of block 1:
  \<^verbatim>\<open>^bb0: %r = op7 ; br ^bb1(%r)     ^bb1(%a): ...\<close>
\<close>

definition single_pred_ir :: IR where
  "single_pred_ir =
     \<lparr> isEntryBlock = (\<lambda>b. b = 0),
       getPredecessors = (\<lambda>b. if b = 1 then [0] else []),
       getSuccessors = (\<lambda>b. if b = 0 then [1] else []),
       branchOps = (\<lambda>b. if b = 0 then [\<lambda>i. if i = 0 then Some [OpResult 7 0] else None]
                         else []) \<rparr>"

text \<open>
  The same, and block 1 ends with a branch to itself that passes its argument on
  unchanged, so that block 1 has the predecessors 1 and 0:
  \<^verbatim>\<open>^bb0: %r = op7 ; br ^bb1(%r)     ^bb1(%a): br ^bb1(%a)\<close>
\<close>

definition self_loop_ir :: IR where
  "self_loop_ir =
     \<lparr> isEntryBlock = (\<lambda>b. b = 0),
       getPredecessors = (\<lambda>b. if b = 1 then [1, 0] else []),
       getSuccessors = (\<lambda>b. if b = 0 \<or> b = 1 then [1] else []),
       branchOps = (\<lambda>b. if b = 0 then [\<lambda>i. if i = 0 then Some [OpResult 7 0] else None]
                         else if b = 1 then [\<lambda>i. if i = 0 then Some [BlockArgument 1 0] else None]
                         else []) \<rparr>"

text \<open>The same graph with the predecessors of block 1 listed in the other order.\<close>

definition self_loop_ir' :: IR where
  "self_loop_ir' = self_loop_ir \<lparr> getPredecessors := (\<lambda>b. if b = 1 then [0, 1] else []) \<rparr>"


section \<open>The records passed to the builder\<close>

text \<open>
  The handles \<open>MLIRValueRef\<close>, \<open>MLIRBlockRef\<close>, \<open>MLIRLocationRef\<close> and
  \<open>MLIRAttributeRef\<close> are opaque pointers declared in \<open>lumen/mlir/IR.h\<close>; a handle
  is a number here. \<open>Type\<close> is \<open>mlir::Type\<close>.
\<close>

type_synonym MLIRValueRef = nat
type_synonym MLIRBlockRef = nat
type_synonym MLIRLocationRef = nat
type_synonym MLIRAttributeRef = nat
type_synonym Type = nat

subsection \<open>The storage of a union\<close>

text \<open>
  A union is the bytes its members share: every member starts at offset 0 of the same
  storage. The layout is that of the 64-bit targets of the compiler: \<open>bool\<close> takes one
  byte, an enumeration over \<open>uint32_t\<close> (or \<open>int\<close>) and \<open>unsigned\<close> four bytes aligned
  to four, \<open>int64_t\<close> eight bytes aligned to eight, least significant byte first.
\<close>

type_synonym byte = "8 word"

fun le_bytes :: "nat \<Rightarrow> 'a::len word \<Rightarrow> byte list" where
  "le_bytes 0 w = []"
| "le_bytes (Suc n) w = ucast w # le_bytes n (drop_bit 8 w)"

fun le_word :: "byte list \<Rightarrow> 'a::len word" where
  "le_word [] = 0"
| "le_word (b # bs) = ucast b OR push_bit 8 (le_word bs)"

definition write_bytes :: "nat \<Rightarrow> byte list \<Rightarrow> byte list \<Rightarrow> byte list" where
  "write_bytes off bs mem = take off mem @ bs @ drop (off + length bs) mem"

definition read_bytes :: "nat \<Rightarrow> nat \<Rightarrow> byte list \<Rightarrow> byte list" where
  "read_bytes off n mem = take n (drop off mem)"

subsection \<open>EirType\<close>

text \<open>
  The enumerators of \<open>EirTypeTag::TypeTag\<close> come from \<open>EIREncoding.h.inc\<close>, which is not
  among the sources: a tag is the \<open>int\<close>-sized value that stores it. The union
  \<open>EirType\<close> is eight bytes; \<open>EirType_any\<close> and \<open>EirType_tuple\<close> read it through the
  member \<open>any\<close> and the member \<open>tuple\<close>, \<open>EirType_set_any\<close> and \<open>EirType_set_tuple\<close>
  assign the member.
\<close>

type_synonym TypeTag = "32 word"

record EirTypeAny =
  tag :: TypeTag

record EirTypeTuple =
  tag :: TypeTag
  arity :: "32 word"

type_synonym EirType = "byte list"

definition EirType_any :: "EirType \<Rightarrow> EirTypeAny" where
  "EirType_any u = \<lparr> EirTypeAny.tag = le_word (read_bytes 0 4 u) \<rparr>"

definition EirType_tuple :: "EirType \<Rightarrow> EirTypeTuple" where
  "EirType_tuple u =
     \<lparr> EirTypeTuple.tag = le_word (read_bytes 0 4 u),
       EirTypeTuple.arity = le_word (read_bytes 4 4 u) \<rparr>"

definition EirType_set_any :: "EirTypeAny \<Rightarrow> EirType \<Rightarrow> EirType" where
  "EirType_set_any a u = write_bytes 0 (le_bytes 4 (EirTypeAny.tag a)) u"

definition EirType_set_tuple :: "EirTypeTuple \<Rightarrow> EirType \<Rightarrow> EirType" where
  "EirType_set_tuple t u =
     write_bytes 4 (le_bytes 4 (EirTypeTuple.arity t))
       (write_bytes 0 (le_bytes 4 (EirTypeTuple.tag t)) u)"

subsection \<open>MapAction and MapUpdate\<close>

text \<open>The pointer \<open>actionsv\<close> is the array it points to; \<open>actionsc\<close> is the count.\<close>

datatype MapActionType = Unknown | Insert | Update

record MapAction =
  action :: MapActionType
  key :: MLIRValueRef
  val :: MLIRValueRef

record MapUpdate =
  loc :: MLIRLocationRef
  map' :: MLIRValueRef
  ok :: MLIRBlockRef
  err :: MLIRBlockRef
  actionsv :: "MapAction list"
  actionsc :: nat

subsection \<open>Closure\<close>

text \<open>
  \<open>env\<close> is a pointer to \<open>envLen\<close> value handles: an address in the caller's memory,
  which maps an address to the handle stored there.
\<close>

type_synonym address = nat
type_synonym ValueStore = "address \<Rightarrow> MLIRValueRef"

record Closure =
  loc :: MLIRLocationRef
  module :: MLIRAttributeRef
  name :: string
  arity :: "8 word"
  index :: "32 word"
  oldUnique :: "32 word"
  unique :: "byte list"
  env :: address
  envLen :: "32 word"

subsection \<open>Binary specifiers\<close>

text \<open>
  \<open>Endianness::Type\<close> is an enumeration over \<open>uint32_t\<close>; inside the payload union its
  storage can hold any 32-bit value, so it is that value, with the three enumerators
  as constants.
\<close>

type_synonym Endianness = "32 word"

definition Big :: Endianness where "Big = 0"
definition Little :: Endianness where "Little = 1"
definition Native :: Endianness where "Native = 2"

datatype BinarySpecifierType = Integer | Float | Bytes | Bits | Utf8 | Utf16 | Utf32

record IntegerSpecifier =
  isSigned :: bool
  endianness :: Endianness
  unit :: "64 word"

record FloatSpecifier =
  endianness :: Endianness
  unit :: "64 word"

record UnitSpecifier =
  unit :: "64 word"

record EndiannessSpecifier =
  endianness :: Endianness

text \<open>
  The union \<open>BinarySpecifierPayload\<close> is sixteen bytes. Its members \<open>i\<close>, \<open>f\<close>, \<open>us\<close>
  and \<open>es\<close> are read by \<open>payload_i\<close>, \<open>payload_f\<close>, \<open>payload_us\<close> and \<open>payload_es\<close> and
  assigned by the \<open>payload_set\<close> functions. The fields lie at these offsets:
  \<open>i.isSigned\<close> 0, \<open>i.endianness\<close> 4, \<open>i.unit\<close> 8; \<open>f.endianness\<close> 0, \<open>f.unit\<close> 8;
  \<open>us.unit\<close> 0; \<open>es.endianness\<close> 0. The source has no check of any kind on these
  accesses, so the functions have none and return no error.
\<close>

type_synonym BinarySpecifierPayload = "byte list"

definition payload_i :: "BinarySpecifierPayload \<Rightarrow> IntegerSpecifier" where
  "payload_i p =
     \<lparr> isSigned = (le_word (read_bytes 0 1 p) \<noteq> (0 :: byte)),
       IntegerSpecifier.endianness = le_word (read_bytes 4 4 p),
       IntegerSpecifier.unit = le_word (read_bytes 8 8 p) \<rparr>"

definition payload_f :: "BinarySpecifierPayload \<Rightarrow> FloatSpecifier" where
  "payload_f p =
     \<lparr> FloatSpecifier.endianness = le_word (read_bytes 0 4 p),
       FloatSpecifier.unit = le_word (read_bytes 8 8 p) \<rparr>"

definition payload_us :: "BinarySpecifierPayload \<Rightarrow> UnitSpecifier" where
  "payload_us p = \<lparr> UnitSpecifier.unit = le_word (read_bytes 0 8 p) \<rparr>"

definition payload_es :: "BinarySpecifierPayload \<Rightarrow> EndiannessSpecifier" where
  "payload_es p = \<lparr> EndiannessSpecifier.endianness = le_word (read_bytes 0 4 p) \<rparr>"

definition payload_set_i ::
  "IntegerSpecifier \<Rightarrow> BinarySpecifierPayload \<Rightarrow> BinarySpecifierPayload" where
  "payload_set_i v p =
     write_bytes 8 (le_bytes 8 (IntegerSpecifier.unit v))
       (write_bytes 4 (le_bytes 4 (IntegerSpecifier.endianness v))
         (write_bytes 0 [if isSigned v then 1 else 0] p))"

definition payload_set_f ::
  "FloatSpecifier \<Rightarrow> BinarySpecifierPayload \<Rightarrow> BinarySpecifierPayload" where
  "payload_set_f v p =
     write_bytes 8 (le_bytes 8 (FloatSpecifier.unit v))
       (write_bytes 0 (le_bytes 4 (FloatSpecifier.endianness v)) p)"

definition payload_set_us ::
  "UnitSpecifier \<Rightarrow> BinarySpecifierPayload \<Rightarrow> BinarySpecifierPayload" where
  "payload_set_us v p = write_bytes 0 (le_bytes 8 (UnitSpecifier.unit v)) p"

definition payload_set_es ::
  "EndiannessSpecifier \<Rightarrow> BinarySpecifierPayload \<Rightarrow> BinarySpecifierPayload" where
  "payload_set_es v p = write_bytes 0 (le_bytes 4 (EndiannessSpecifier.endianness v)) p"

record BinarySpecifier =
  tag :: BinarySpecifierType
  payload :: BinarySpecifierPayload

text \<open>
  Two specifiers a caller can build: tag \<open>Utf16\<close> with the member \<open>es\<close> assigned
  little-endian, and tag \<open>Bytes\<close> with the member \<open>us\<close> assigned the unit 8, each on a
  payload that was zeroed before.
\<close>

definition zero_payload :: BinarySpecifierPayload where
  "zero_payload = replicate 16 0"

definition utf16_little :: BinarySpecifier where
  "utf16_little =
     \<lparr> BinarySpecifier.tag = Utf16,
       payload = payload_set_es \<lparr> EndiannessSpecifier.endianness = Little \<rparr> zero_payload \<rparr>"

definition bytes_unit8 :: BinarySpecifier where
  "bytes_unit8 =
     \<lparr> BinarySpecifier.tag = Bytes,
       payload = payload_set_us \<lparr> UnitSpecifier.unit = 8 \<rparr> zero_payload \<rparr>"

subsection \<open>The MatchPattern classes\<close>

text \<open>
  The base class holds the tag; a subclass is the base record extended by its own
  fields, and its constructor passes its tag to the constructor of the base. A
  \<open>const MatchPattern *\<close> may point to an object of any subclass: \<open>getKind\<close> and the
  \<open>classof\<close> functions take any extension of the base record. The enumerator \<open>Cons\<close>
  is written \<open>Cons'\<close>, the fields \<open>value\<close> and \<open>size\<close> are written \<open>val\<close> and \<open>size'\<close>.
\<close>

datatype MatchPatternType = Any | Cons' | Tuple | MapItem | IsType | Value | Binary

record MatchPattern =
  tag :: MatchPatternType

definition MatchPattern :: "MatchPatternType \<Rightarrow> MatchPattern" where
  "MatchPattern t = \<lparr> MatchPattern.tag = t \<rparr>"

definition getKind :: "'a MatchPattern_scheme \<Rightarrow> MatchPatternType" where
  "getKind p = MatchPattern.tag p"

record TuplePattern = MatchPattern +
  arity :: "32 word"

record MapPattern = MatchPattern +
  key :: Value

record IsTypePattern = MatchPattern +
  expectedType :: Type

record ValuePattern = MatchPattern +
  val :: Value

record BinaryPattern = MatchPattern +
  size' :: "Value option"
  spec :: BinarySpecifier

definition AnyPattern :: MatchPattern where
  "AnyPattern = MatchPattern Any"

definition ConsPattern :: MatchPattern where
  "ConsPattern = MatchPattern Cons'"

definition TuplePattern :: "32 word \<Rightarrow> TuplePattern" where
  "TuplePattern a = MatchPattern.extend (MatchPattern Tuple) (TuplePattern.fields a)"

definition MapPattern :: "Value \<Rightarrow> MapPattern" where
  "MapPattern k = MatchPattern.extend (MatchPattern MapItem) (MapPattern.fields k)"

definition IsTypePattern :: "Type \<Rightarrow> IsTypePattern" where
  "IsTypePattern ty = MatchPattern.extend (MatchPattern IsType) (IsTypePattern.fields ty)"

definition ValuePattern :: "Value \<Rightarrow> ValuePattern" where
  "ValuePattern v = MatchPattern.extend (MatchPattern Value) (ValuePattern.fields v)"

definition BinaryPattern :: "BinarySpecifier \<Rightarrow> Value option \<Rightarrow> BinaryPattern" where
  "BinaryPattern s sz = MatchPattern.extend (MatchPattern Binary) (BinaryPattern.fields sz s)"

definition AnyPattern_classof :: "'a MatchPattern_scheme \<Rightarrow> bool" where
  "AnyPattern_classof pattern = (getKind pattern = Any)"

definition ConsPattern_classof :: "'a MatchPattern_scheme \<Rightarrow> bool" where
  "ConsPattern_classof pattern = (getKind pattern = Cons')"

definition TuplePattern_classof :: "'a MatchPattern_scheme \<Rightarrow> bool" where
  "TuplePattern_classof pattern = (getKind pattern = Tuple)"

definition MapPattern_classof :: "'a MatchPattern_scheme \<Rightarrow> bool" where
  "MapPattern_classof pattern = (getKind pattern = MapItem)"

definition IsTypePattern_classof :: "'a MatchPattern_scheme \<Rightarrow> bool" where
  "IsTypePattern_classof pattern = (getKind pattern = IsType)"

definition ValuePattern_classof :: "'a MatchPattern_scheme \<Rightarrow> bool" where
  "ValuePattern_classof pattern = (getKind pattern = Value)"

definition BinaryPattern_classof :: "'a MatchPattern_scheme \<Rightarrow> bool" where
  "BinaryPattern_classof pattern = (getKind pattern = Binary)"

text \<open>The seven tag-checked downcasts \<open>llvm::isa\<close> can try on a pattern.\<close>

definition classofs :: "('a MatchPattern_scheme \<Rightarrow> bool) list" where
  "classofs =
     [AnyPattern_classof, ConsPattern_classof, TuplePattern_classof, MapPattern_classof,
      IsTypePattern_classof, ValuePattern_classof, BinaryPattern_classof]"

section \<open>The routines that consume the records\<close>

text \<open>
  The header declares the records; the routines that build a closure, lower a match
  and lower a map update are in \<open>ModuleBuilder.cpp\<close>, which is not among the sources.
  What follows models them from the specification (sections 3, 4.2, 4.3 and 4.5).
\<close>

subsection \<open>Run-time terms\<close>

text \<open>
  Modelled from the spec: the terms of the source language that the emitted code
  handles at run time; the header does not describe them. Integers, atoms, the empty
  list, list cells, tuples, maps as key-value lists, and binaries as bit strings.
\<close>

datatype Term =
    TInt int
  | TAtom string
  | TNil
  | TCons Term Term
  | TTuple "Term list"
  | TMap "(Term \<times> Term) list"
  | TBinary "bool list"

text \<open>
  Modelled from the spec: a run-time state, missing as well. It gives the term held by
  each value handle, the type tag of a term (the encoding table \<open>EIREncoding.h.inc\<close> is
  not among the sources) and whether a bit string decodes as a segment of a given
  specifier and optional size, which the specification leaves to the decoder.
\<close>

record Runtime =
  valueOf :: "MLIRValueRef \<Rightarrow> Term"
  typeTagOf :: "Term \<Rightarrow> TypeTag"
  decodes :: "BinarySpecifier \<Rightarrow> Term option \<Rightarrow> bool list \<Rightarrow> bool"

subsection \<open>Closure capture\<close>

text \<open>
  The closure builder and the reader of a captured environment are missing from the
  sources. Section 6 of the specification says that an ordered sequence crosses the
  boundary as a pointer and a count.
\<close>

text \<open>
  Modelled from the spec: the caller's array of captured values, missing. The values
  \<open>vs\<close> are stored at the consecutive addresses from \<open>p\<close>.
\<close>

definition storeArray :: "address \<Rightarrow> MLIRValueRef list \<Rightarrow> ValueStore \<Rightarrow> ValueStore" where
  "storeArray p vs h = (\<lambda>a. if p \<le> a \<and> a < p + length vs then vs ! (a - p) else h a)"

text \<open>
  Modelled from the spec: the construction of a closure with a captured environment,
  missing. The values are stored in order, \<open>env\<close> points to the first and \<open>envLen\<close> is
  their number as an \<open>unsigned\<close>.
\<close>

definition captureEnv ::
  "Closure \<Rightarrow> address \<Rightarrow> MLIRValueRef list \<Rightarrow> ValueStore \<Rightarrow> Closure \<times> ValueStore" where
  "captureEnv c p vs h =
     (c\<lparr> env := p, envLen := word_of_nat (length vs) \<rparr>, storeArray p vs h)"

text \<open>
  Modelled from the spec: the positional access to a captured value, missing:
  \<open>env[i]\<close> for a position within the count.
\<close>

definition envAt :: "Closure \<Rightarrow> ValueStore \<Rightarrow> nat \<Rightarrow> MLIRValueRef option" where
  "envAt c h i = (if i < unat (envLen c) then Some (h (env c + i)) else None)"

text \<open>
  Modelled from the spec: reading the environment back, missing: the values at the
  positions \<open>0, ..., envLen - 1\<close>.
\<close>

definition readEnv :: "Closure \<Rightarrow> ValueStore \<Rightarrow> MLIRValueRef list" where
  "readEnv c h = map (\<lambda>i. h (env c + i)) [0..<unat (envLen c)]"

text \<open>A closure descriptor with no environment yet, and a store of zeros.\<close>

definition closure0 :: Closure where
  "closure0 =
     \<lparr> Closure.loc = 0, module = 0, name = ''f'', Closure.arity = 2, index = 0, oldUnique = 0,
       unique = replicate 16 0, env = 0, envLen = 0 \<rparr>"

definition store0 :: ValueStore where
  "store0 = (\<lambda>a. 0)"

subsection \<open>Match\<close>

text \<open>
  Modelled from the spec: the pattern of a branch as the closed variant of the
  specification's data model; the decoding of \<open>MLIRMatchPattern\<close> (a tag with a union
  payload) that produces it is missing. A key, a literal and a size are value handles,
  an expected type is a type tag.
\<close>

datatype Pattern =
    PAny
  | PCons
  | PTuple "32 word"
  | PMapItem MLIRValueRef
  | PIsType TypeTag
  | PValue MLIRValueRef
  | PBinary BinarySpecifier "MLIRValueRef option"

text \<open>
  The records \<open>MLIRMatchBranch\<close> and \<open>Match\<close> of the header, with \<open>destArgv\<close> and
  \<open>branches\<close> the arrays behind the pointers and the pattern decoded.
\<close>

record MLIRMatchBranch =
  loc :: MLIRLocationRef
  dest :: MLIRBlockRef
  destArgv :: "MLIRValueRef list"
  destArgc :: nat
  pattern :: Pattern

record Match =
  loc :: MLIRLocationRef
  selector :: MLIRValueRef
  branches :: "MLIRMatchBranch list"
  numBranches :: nat

text \<open>
  Modelled from the spec: the pattern semantics of section 4.5, missing. \<open>Any\<close> always
  matches, \<open>Cons\<close> a list cell, \<open>Tuple\<close> a tuple of exactly that arity, \<open>MapItem\<close> a map
  that contains the key, \<open>IsType\<close> a term whose type tag is the expected one, \<open>Value\<close>
  a term equal to the literal, \<open>Binary\<close> a binary that decodes.
\<close>

fun matches :: "Runtime \<Rightarrow> Pattern \<Rightarrow> Term \<Rightarrow> bool" where
  "matches rt PAny t = True"
| "matches rt PCons t = (case t of TCons h r \<Rightarrow> True | _ \<Rightarrow> False)"
| "matches rt (PTuple n) t = (case t of TTuple ts \<Rightarrow> length ts = unat n | _ \<Rightarrow> False)"
| "matches rt (PMapItem k) t =
     (case t of TMap kvs \<Rightarrow> valueOf rt k \<in> fst ` set kvs | _ \<Rightarrow> False)"
| "matches rt (PIsType ty) t = (typeTagOf rt t = ty)"
| "matches rt (PValue v) t = (t = valueOf rt v)"
| "matches rt (PBinary s sz) t =
     (case t of TBinary bits \<Rightarrow> decodes rt s (map_option (valueOf rt) sz) bits | _ \<Rightarrow> False)"

text \<open>
  Modelled from the spec: the dispatch the lowering of a match emits, missing. The
  patterns are tested in list order and the first branch whose pattern matches is
  taken: its destination block with its \<open>destArgc\<close> arguments. \<open>None\<close>: no pattern
  matched.
\<close>

fun firstMatch ::
  "Runtime \<Rightarrow> Term \<Rightarrow> MLIRMatchBranch list \<Rightarrow> (MLIRBlockRef \<times> MLIRValueRef list) option" where
  "firstMatch rt t [] = None"
| "firstMatch rt t (b # bs) =
     (if matches rt (pattern b) t then Some (dest b, take (destArgc b) (destArgv b))
      else firstMatch rt t bs)"

text \<open>
  Modelled from the spec: the dispatch of a match on the term its selector holds, over
  its first \<open>numBranches\<close> branches.
\<close>

definition dispatch :: "Runtime \<Rightarrow> Match \<Rightarrow> (MLIRBlockRef \<times> MLIRValueRef list) option" where
  "dispatch rt m =
     firstMatch rt (valueOf rt (selector m)) (take (numBranches m) (branches m))"

text \<open>
  The example of the specification: the handle 0 holds the selector and the handle 1
  the literal, both the integer 5; \<open>Bt\<close> is block 10 and takes the argument 0, \<open>Ba\<close> is
  block 20 and takes none.
\<close>

definition rt5 :: Runtime where
  "rt5 = \<lparr> valueOf = (\<lambda>v. TInt 5), typeTagOf = (\<lambda>t. 0), decodes = (\<lambda>s sz bits. False) \<rparr>"

definition branch_value5 :: MLIRMatchBranch where
  "branch_value5 =
     \<lparr> MLIRMatchBranch.loc = 0, dest = 10, destArgv = [0], destArgc = 1, pattern = PValue 1 \<rparr>"

definition branch_any :: MLIRMatchBranch where
  "branch_any =
     \<lparr> MLIRMatchBranch.loc = 0, dest = 20, destArgv = [], destArgc = 0, pattern = PAny \<rparr>"

definition match_value_any :: Match where
  "match_value_any =
     \<lparr> Match.loc = 0, selector = 0, branches = [branch_value5, branch_any], numBranches = 2 \<rparr>"

definition match_any_value :: Match where
  "match_any_value =
     \<lparr> Match.loc = 0, selector = 0, branches = [branch_any, branch_value5], numBranches = 2 \<rparr>"

subsection \<open>MapUpdate\<close>

text \<open>
  The lowering of a map update is missing from the sources. It has a build-time step,
  which emits code or fails, and the emitted code runs on the map at run time.
\<close>

text \<open>Modelled from the spec: the build-time error of section 7 for an action of kind \<open>Unknown\<close>.\<close>

datatype buildError = InvalidActionKind

text \<open>
  Modelled from the spec: the operations the lowering emits, missing: an insert and an
  update of a key with a value, the update with a failure edge to the err-block.
\<close>

datatype MapOp =
    MapInsertOp MLIRValueRef MLIRValueRef
  | MapUpdateOp MLIRValueRef MLIRValueRef

text \<open>
  Modelled from the spec: the lowering of the actions, missing. An action of kind
  \<open>Unknown\<close> is rejected and nothing is emitted; otherwise one operation per action, in
  the order of the actions.
\<close>

fun lowerActions :: "MapAction list \<Rightarrow> buildError + MapOp list" where
  "lowerActions [] = Inr []"
| "lowerActions (a # as) =
     (case action a of
        Unknown \<Rightarrow> Inl InvalidActionKind
      | Insert \<Rightarrow>
          (case lowerActions as of
             Inl e \<Rightarrow> Inl e
           | Inr ops \<Rightarrow> Inr (MapInsertOp (MapAction.key a) (MapAction.val a) # ops))
      | Update \<Rightarrow>
          (case lowerActions as of
             Inl e \<Rightarrow> Inl e
           | Inr ops \<Rightarrow> Inr (MapUpdateOp (MapAction.key a) (MapAction.val a) # ops)))"

text \<open>
  Modelled from the spec: the emitted code, missing: the operations on the target map
  and the two blocks control can be transferred to.
\<close>

record MapUpdateCode =
  mapOperand :: MLIRValueRef
  mapOps :: "MapOp list"
  okDest :: MLIRBlockRef
  errDest :: MLIRBlockRef

text \<open>
  Modelled from the spec: the lowering of a map update, missing, over its first
  \<open>actionsc\<close> actions.
\<close>

definition lowerMapUpdate :: "MapUpdate \<Rightarrow> buildError + MapUpdateCode" where
  "lowerMapUpdate u =
     (case lowerActions (take (actionsc u) (actionsv u)) of
        Inl e \<Rightarrow> Inl e
      | Inr ops \<Rightarrow>
          Inr \<lparr> mapOperand = map' u, mapOps = ops, okDest = ok u, errDest = err u \<rparr>)"

text \<open>
  Modelled from the spec: what running the emitted code does, missing. A map at run
  time is a key-value list. \<open>Evaluated i\<close>: action \<open>i\<close> is evaluated. \<open>ReachedOk\<close>:
  control is transferred to the ok-block with the resulting map. \<open>ReachedErr\<close>: control
  is transferred to the err-block.
\<close>

type_synonym rtmap = "(Term \<times> Term) list"

datatype Event =
    Evaluated nat
  | ReachedOk MLIRBlockRef rtmap
  | ReachedErr MLIRBlockRef

text \<open>
  Modelled from the spec: the execution of the emitted operations, missing. An insert
  creates or overwrites its key. An update of a key that is present overwrites it; an
  update of an absent key transfers control to the err-block at once. After the last
  operation control is transferred to the ok-block; with no operation at all this
  happens at once, with the map unchanged.
\<close>

fun execOps ::
  "Runtime \<Rightarrow> MLIRBlockRef \<Rightarrow> MLIRBlockRef \<Rightarrow> nat \<Rightarrow> MapOp list \<Rightarrow> rtmap \<Rightarrow> Event list" where
  "execOps rt okB errB i [] m = [ReachedOk okB m]"
| "execOps rt okB errB i (MapInsertOp k v # ops) m =
     Evaluated i # execOps rt okB errB (Suc i) ops (AList.update (valueOf rt k) (valueOf rt v) m)"
| "execOps rt okB errB i (MapUpdateOp k v # ops) m =
     Evaluated i #
       (if valueOf rt k \<in> fst ` set m
        then execOps rt okB errB (Suc i) ops (AList.update (valueOf rt k) (valueOf rt v) m)
        else [ReachedErr errB])"

text \<open>Modelled from the spec: running the code of a map update on a map, from action 0.\<close>

definition runMapUpdate :: "Runtime \<Rightarrow> MapUpdateCode \<Rightarrow> rtmap \<Rightarrow> Event list" where
  "runMapUpdate rt code m = execOps rt (okDest code) (errDest code) 0 (mapOps code) m"

text \<open>
  Modelled from the spec: the precondition of an action on a map (section 4.2): an
  insert always succeeds, an update needs its key in the map.
\<close>

definition precond :: "Runtime \<Rightarrow> rtmap \<Rightarrow> MapAction \<Rightarrow> bool" where
  "precond rt m a =
     (case action a of
        Insert \<Rightarrow> True
      | Update \<Rightarrow> valueOf rt (MapAction.key a) \<in> fst ` set m
      | Unknown \<Rightarrow> False)"

text \<open>Modelled from the spec: the map after one action that succeeds.\<close>

definition applyAction :: "Runtime \<Rightarrow> rtmap \<Rightarrow> MapAction \<Rightarrow> rtmap" where
  "applyAction rt m a =
     AList.update (valueOf rt (MapAction.key a)) (valueOf rt (MapAction.val a)) m"

text \<open>Modelled from the spec: the map after a sequence of actions, applied in order.\<close>

definition mapAfter :: "Runtime \<Rightarrow> rtmap \<Rightarrow> MapAction list \<Rightarrow> rtmap" where
  "mapAfter rt m as = foldl (applyAction rt) m as"

text \<open>The event is a transfer of control to a block.\<close>

definition isTransfer :: "Event \<Rightarrow> bool" where
  "isTransfer e = (case e of Evaluated i \<Rightarrow> False | _ \<Rightarrow> True)"

text \<open>
  A run-time state where the handle \<open>v\<close> holds the integer \<open>v\<close>, and a map update
  with three actions: insert key 1, update key 1, update key 9.
\<close>

definition rtId :: Runtime where
  "rtId = \<lparr> valueOf = (\<lambda>v. TInt (int v)), typeTagOf = (\<lambda>t. 0), decodes = (\<lambda>s sz bits. False) \<rparr>"

definition update3 :: MapUpdate where
  "update3 =
     \<lparr> MapUpdate.loc = 0, map' = 0, ok = 10, err = 20,
       actionsv = [\<lparr> action = Insert, MapAction.key = 1, MapAction.val = 2 \<rparr>,
                   \<lparr> action = Update, MapAction.key = 1, MapAction.val = 3 \<rparr>,
                   \<lparr> action = Update, MapAction.key = 9, MapAction.val = 4 \<rparr>],
       actionsc = 3 \<rparr>"

text \<open>The same with the count 2: the third action is not part of the batch.\<close>

definition update2 :: MapUpdate where
  "update2 = update3 \<lparr> actionsc := 2 \<rparr>"

subsection \<open>Auxiliary notions for the proofs\<close>




text \<open>\<open>evaluatedFrom j n\<close>: the actions \<open>j\<close>, ..., \<open>j + n - 1\<close> are evaluated, in this order.\<close>

definition evaluatedFrom :: "nat \<Rightarrow> nat \<Rightarrow> Event list" where
  "evaluatedFrom j n = map Evaluated [j..<j + n]"

section \<open>Properties of the definition resolver\<close>

subsection \<open>The loops never produce an operation\<close>

lemma predLoop_never_op: "predLoop atEnd rec g block idx preds r \<noteq> Some (Inr (Some op))"
  by (induction preds arbitrary: r) (auto split: option.splits sum.splits)

lemma getDefinition_block_argument_null:
  "getDefinition atEnd n g (BlockArgument b i) \<noteq> Some (Inr (Some op))"
  by (cases n) (auto simp: Let_def predLoop_never_op)

subsection \<open>More depth never changes a result\<close>






subsection \<open>The loops return when the recursive calls do\<close>





subsection \<open>The loops return a result when the recursive calls do\<close>





subsection \<open>A self-loop that is reached never yields a result\<close>






subsection \<open>The example graphs\<close>

lemmas ir_simps = single_pred_ir_def self_loop_ir_def self_loop_ir'_def hasNoPredecessors_def
  getOwner_def getArgNumber_def getDefiningOp_def







subsection \<open>The claims about the resolver\<close>

text \<open>
  Claim C1 says that a block argument whose contributing predecessor edges all resolve
  to one operation resolves to that operation, and with exactly one predecessor to the
  resolution of that predecessor's operand. The source computes this in \<open>result\<close> and
  then returns \<open>nullptr\<close>: in \<open>single_pred_ir\<close> the only edge into block 1 forwards the
  result of operation 7, which resolves to operation 7, and the argument of block 1
  resolves to null, at every depth that is enough, whether the walk reads the callback's
  end as advance or as interrupt; where the program stops at the callback's end it
  returns nothing. No block argument of any graph resolves to an operation.
\<close>

theorem getDefinition_single_predecessor_returns_null:
  "getDefinition atEnd (Suc n) single_pred_ir (OpResult 7 0) = Some (Inr (Some 7))
   \<and> forwards single_pred_ir (BlockArgument 1 0) (OpResult 7 0)
   \<and> getDefinition (Some advance) (Suc (Suc n)) single_pred_ir (BlockArgument 1 0)
       = Some (Inr None)
   \<and> getDefinition (Some interrupt) (Suc (Suc n)) single_pred_ir (BlockArgument 1 0)
       = Some (Inr None)
   \<and> getDefinition None (Suc (Suc n)) single_pred_ir (BlockArgument 1 0)
       = Some (Inl MissingReturn)
   \<and> getDefinition atEnd m g (BlockArgument b i) \<noteq> Some (Inr (Some op))"
proof (intro conjI)
  show "getDefinition atEnd (Suc n) single_pred_ir (OpResult 7 0) = Some (Inr (Some 7))"
    by (simp add: getDefiningOp_def)
  show "forwards single_pred_ir (BlockArgument 1 0) (OpResult 7 0)"
    by (simp add: forwards_def single_pred_ir_def)
  show "getDefinition (Some advance) (Suc (Suc n)) single_pred_ir (BlockArgument 1 0)
       = Some (Inr None)"
    by (simp add: ir_simps)
  show "getDefinition (Some interrupt) (Suc (Suc n)) single_pred_ir (BlockArgument 1 0)
       = Some (Inr None)"
    by (simp add: ir_simps)
  show "getDefinition None (Suc (Suc n)) single_pred_ir (BlockArgument 1 0)
       = Some (Inl MissingReturn)"
    by (simp add: ir_simps)
  show "getDefinition atEnd m g (BlockArgument b i) \<noteq> Some (Inr (Some op))"
    by (rule getDefinition_block_argument_null)
qed




text \<open>
  Claim C6: applied to the result of an operation, \<open>getDefinition\<close> returns that
  operation; applied to an argument of the entry block, or of a block with no
  predecessors, it returns null; and it returns an operation only for a value that this
  operation defines.
\<close>

theorem getDefinition_base_cases:
  "getDefinition atEnd (Suc n) g (OpResult op i) = Some (Inr (Some op))
   \<and> (isEntryBlock g b \<or> hasNoPredecessors g b \<longrightarrow>
        getDefinition atEnd (Suc n) g (BlockArgument b j) = Some (Inr None))
   \<and> (getDefinition atEnd m g v = Some (Inr (Some op')) \<longrightarrow> (\<exists>k. v = OpResult op' k))"
proof (intro conjI impI)
  show "getDefinition atEnd (Suc n) g (OpResult op i) = Some (Inr (Some op))"
    by (simp add: getDefiningOp_def)
  show "getDefinition atEnd (Suc n) g (BlockArgument b j) = Some (Inr None)"
    if "isEntryBlock g b \<or> hasNoPredecessors g b"
    using that by (auto simp: getOwner_def)
  show "\<exists>k. v = OpResult op' k" if r: "getDefinition atEnd m g v = Some (Inr (Some op'))"
  proof (cases v)
    case (OpResult o' k)
    with r have "o' = op'" by (cases m) (simp_all add: getDefiningOp_def)
    with OpResult show ?thesis by simp
  next
    case (BlockArgument b' k)
    with r getDefinition_block_argument_null show ?thesis by blast
  qed
qed

theorem getDefinition_base_cases_witness:
  "getDefinition (Some advance) (Suc 0) single_pred_ir (OpResult 7 0) = Some (Inr (Some 7))
   \<and> isEntryBlock single_pred_ir 0
   \<and> getDefinition (Some advance) (Suc 0) single_pred_ir (BlockArgument 0 0) = Some (Inr None)
   \<and> hasNoPredecessors single_pred_ir 2
   \<and> getDefinition (Some advance) (Suc 0) single_pred_ir (BlockArgument 2 0) = Some (Inr None)
   \<and> (\<exists>k. OpResult 7 0 = OpResult 7 k)"
proof -
  have e: "isEntryBlock single_pred_ir 0" by (simp add: single_pred_ir_def)
  have p: "hasNoPredecessors single_pred_ir 2"
    by (simp add: single_pred_ir_def hasNoPredecessors_def)
  have r: "getDefinition (Some advance) (Suc 0) single_pred_ir (OpResult 7 0) = Some (Inr (Some 7))"
    by (simp add: getDefiningOp_def)
  from getDefinition_base_cases
         [of "Some advance" 0 single_pred_ir 7 0 0 0 "Suc 0" "OpResult 7 0" 7]
       getDefinition_base_cases
         [of "Some advance" 0 single_pred_ir 7 0 2 0 "Suc 0" "OpResult 7 0" 7] e p r
  show ?thesis by blast
qed

text \<open>
  Claim C7: the typed variant returns the operation the untyped resolver returns exactly
  when that operation is not null and of the requested kind, and null otherwise, also
  when the untyped resolver returns null. It returns when the untyped resolver does.
\<close>

theorem getDefinitionTyped_dyn_cast:
  "(getDefinitionTyped classof atEnd n g v = Some (Inr (Some op))
      \<longleftrightarrow> getDefinition atEnd n g v = Some (Inr (Some op)) \<and> classof op)
   \<and> (getDefinition atEnd n g v = Some (Inr None) \<longrightarrow>
        getDefinitionTyped classof atEnd n g v = Some (Inr None))
   \<and> (getDefinition atEnd n g v = Some (Inr (Some op)) \<and> \<not> classof op \<longrightarrow>
        getDefinitionTyped classof atEnd n g v = Some (Inr None))
   \<and> (getDefinitionTyped classof atEnd n g v = None \<longleftrightarrow> getDefinition atEnd n g v = None)
   \<and> (getDefinitionTyped classof atEnd n g v = Some (Inl e)
        \<longleftrightarrow> getDefinition atEnd n g v = Some (Inl e))"
  by (auto simp: getDefinitionTyped_def dyn_cast_or_null_def
           split: option.splits sum.splits if_splits)

theorem getDefinitionTyped_dyn_cast_witness:
  "getDefinition (Some advance) 1 single_pred_ir (OpResult 7 0) = Some (Inr (Some 7))
   \<and> getDefinitionTyped (\<lambda>op. op = 7) (Some advance) 1 single_pred_ir (OpResult 7 0)
       = Some (Inr (Some 7))
   \<and> getDefinitionTyped (\<lambda>op. op = 8) (Some advance) 1 single_pred_ir (OpResult 7 0)
       = Some (Inr None)
   \<and> getDefinition (Some advance) 1 single_pred_ir (BlockArgument 0 0) = Some (Inr None)
   \<and> getDefinitionTyped (\<lambda>op. op = 7) (Some advance) 1 single_pred_ir (BlockArgument 0 0)
       = Some (Inr None)"
proof -
  have r: "getDefinition (Some advance) 1 single_pred_ir (OpResult 7 0) = Some (Inr (Some 7))"
    by (simp add: getDefiningOp_def)
  have a: "getDefinition (Some advance) 1 single_pred_ir (BlockArgument 0 0) = Some (Inr None)"
    by (simp add: ir_simps)
  from getDefinitionTyped_dyn_cast
         [of "\<lambda>op. op = 7" "Some advance" 1 single_pred_ir "OpResult 7 0" 7]
       getDefinitionTyped_dyn_cast
         [of "\<lambda>op. op = 8" "Some advance" 1 single_pred_ir "OpResult 7 0" 7]
       getDefinitionTyped_dyn_cast
         [of "\<lambda>op. op = 7" "Some advance" 1 single_pred_ir "BlockArgument 0 0" 7]
       r a
  show ?thesis by simp
qed

section \<open>Properties of the records\<close>

subsection \<open>Bytes\<close>

lemma length_le_bytes [simp]: "length (le_bytes n w) = n"
  by (induction n arbitrary: w) simp_all

lemma le_word_le_bytes: "le_word (le_bytes n w) = take_bit (8 * n) w"
proof (induction n arbitrary: w)
  case 0
  then show ?case by simp
next
  case (Suc n)
  show ?case
    by (simp add: Suc) (rule bit_word_eqI, auto simp: bit_simps)
qed

lemma le_word_le_bytes_32 [simp]: "le_word (le_bytes 4 (w :: 32 word)) = w"
  by (simp add: le_word_le_bytes take_bit_word_eq_self del: le_bytes.simps)

lemma le_word_le_bytes_64 [simp]: "le_word (le_bytes 8 (w :: 64 word)) = w"
  by (simp add: le_word_le_bytes take_bit_word_eq_self del: le_bytes.simps)

lemma length_write_bytes [simp]:
  "off + length bs \<le> length mem \<Longrightarrow> length (write_bytes off bs mem) = length mem"
  by (simp add: write_bytes_def)

lemma read_write_same [simp]:
  "off + n \<le> length mem \<Longrightarrow> length bs = n \<Longrightarrow> read_bytes off n (write_bytes off bs mem) = bs"
  by (simp add: write_bytes_def read_bytes_def)

lemma read_write_before [simp]:
  assumes a: "off + n \<le> off'" and b: "off' + length bs \<le> length mem"
  shows "read_bytes off n (write_bytes off' bs mem) = read_bytes off n mem"
proof -
  let ?rest = "bs @ drop (off' + length bs) mem"
  from a b have "drop off (take off' mem @ ?rest) = drop off (take off' mem) @ ?rest"
    by simp
  moreover from a b
  have "take n (drop off (take off' mem) @ ?rest) = take n (drop off (take off' mem))"
    by simp
  moreover have "drop off (take off' mem) = take (off' - off) (drop off mem)"
    by (simp add: drop_take)
  moreover from a have "take n (take (off' - off) (drop off mem)) = take n (drop off mem)"
    by (simp add: min_def)
  ultimately show ?thesis
    by (simp add: write_bytes_def read_bytes_def)
qed

lemma read_write_after [simp]:
  "off' + length bs \<le> off \<Longrightarrow> off' + length bs \<le> length mem \<Longrightarrow>
   read_bytes off n (write_bytes off' bs mem) = read_bytes off n mem"
  by (simp add: write_bytes_def read_bytes_def)

subsection \<open>The claims about the unions\<close>

text \<open>
  Claim C9: in the union \<open>EirType\<close> the tag lies at the same leading position in the
  member \<open>any\<close> and in the member \<open>tuple\<close>. Whichever member was assigned, reading the
  tag through either member gives the tag that was stored; each member reads back what
  was assigned through it; and assigning the member \<open>any\<close> leaves the bytes of the arity
  as they were, so that only the tag says whether an arity is there to read.
\<close>

theorem EirType_tag_shared:
  assumes "length u = 8"
  shows "EirTypeAny.tag (EirType_any (EirType_set_tuple t u)) = EirTypeTuple.tag t
     \<and> EirTypeTuple.tag (EirType_tuple (EirType_set_any a u)) = EirTypeAny.tag a
     \<and> EirTypeAny.tag (EirType_any u) = EirTypeTuple.tag (EirType_tuple u)
     \<and> EirType_any (EirType_set_any a u) = a
     \<and> EirType_tuple (EirType_set_tuple t u) = t
     \<and> EirTypeTuple.arity (EirType_tuple (EirType_set_any a u))
         = EirTypeTuple.arity (EirType_tuple u)"
  using assms
  by (simp add: EirType_any_def EirType_tuple_def EirType_set_any_def EirType_set_tuple_def)

theorem EirType_tag_shared_witness:
  "length (replicate 8 (0 :: byte)) = 8
   \<and> EirTypeAny.tag (EirType_any (EirType_set_tuple
        \<lparr> EirTypeTuple.tag = 7, EirTypeTuple.arity = 3 \<rparr> (replicate 8 0))) = 7
   \<and> EirTypeTuple.tag (EirType_tuple (EirType_set_any
        \<lparr> EirTypeAny.tag = 5 \<rparr> (replicate 8 0))) = 5"
  using EirType_tag_shared [of "replicate 8 0"
          "\<lparr> EirTypeTuple.tag = 7, EirTypeTuple.arity = 3 \<rparr>" "\<lparr> EirTypeAny.tag = 5 \<rparr>"]
  by simp

text \<open>
  Claim C5 says that reading or constructing a payload field that does not match the
  tag is a build-time error, never tolerated, and that the variants \<open>Bytes\<close>, \<open>Bits\<close>,
  \<open>Utf8\<close>, \<open>Utf16\<close> and \<open>Utf32\<close> carry no numeric payload. In the source the payload
  is an unchecked union with the members \<open>us\<close> and \<open>es\<close> beside \<open>i\<close> and \<open>f\<close>: under
  the tag \<open>Utf16\<close> the member \<open>f\<close> is read without any error and gives the endianness
  stored through \<open>es\<close>; under the tag \<open>Bytes\<close> the member \<open>us\<close> holds the unit 8, and
  reading the member \<open>i\<close> gives an integer specifier made of the same bytes.
\<close>

theorem BinarySpecifier_mismatched_read_returns:
  "BinarySpecifier.tag utf16_little = Utf16
   \<and> payload_f (payload utf16_little)
       = \<lparr> FloatSpecifier.endianness = Little, FloatSpecifier.unit = 0 \<rparr>
   \<and> BinarySpecifier.tag bytes_unit8 = Bytes
   \<and> payload_us (payload bytes_unit8) = \<lparr> UnitSpecifier.unit = 8 \<rparr>
   \<and> payload_i (payload bytes_unit8)
       = \<lparr> isSigned = True, IntegerSpecifier.endianness = Big, IntegerSpecifier.unit = 0 \<rparr>"
  by code_simp

text \<open>
  Claim C5 as amended: the tag is a field beside an unchecked union. Under every tag
  each of the four members \<open>i\<close>, \<open>f\<close>, \<open>us\<close>, \<open>es\<close> can be assigned and read, and a
  read never fails; a member reads back what was assigned through it; changing the tag
  leaves the payload as it is and assigning the payload leaves the tag as it is; and
  the endianness assigned through \<open>es\<close> is the one read through \<open>f\<close>.
\<close>

theorem BinarySpecifier_payload_unchecked:
  assumes "length (payload s) = 16"
  shows "payload_i (payload (s\<lparr>payload := payload_set_i vi (payload s)\<rparr>)) = vi
     \<and> payload_f (payload (s\<lparr>payload := payload_set_f vf (payload s)\<rparr>)) = vf
     \<and> payload_us (payload (s\<lparr>payload := payload_set_us vu (payload s)\<rparr>)) = vu
     \<and> payload_es (payload (s\<lparr>payload := payload_set_es ve (payload s)\<rparr>)) = ve
     \<and> payload (s\<lparr>BinarySpecifier.tag := t\<rparr>) = payload s
     \<and> BinarySpecifier.tag (s\<lparr>payload := p\<rparr>) = BinarySpecifier.tag s
     \<and> FloatSpecifier.endianness (payload_f (payload_set_es ve (payload s)))
         = EndiannessSpecifier.endianness ve"
proof (intro conjI)
  show "payload_i (payload (s\<lparr>payload := payload_set_i vi (payload s)\<rparr>)) = vi"
    using assms by (simp add: payload_i_def payload_set_i_def)
  show "payload_f (payload (s\<lparr>payload := payload_set_f vf (payload s)\<rparr>)) = vf"
    using assms by (simp add: payload_f_def payload_set_f_def)
  show "payload_us (payload (s\<lparr>payload := payload_set_us vu (payload s)\<rparr>)) = vu"
    using assms by (simp add: payload_us_def payload_set_us_def)
  show "payload_es (payload (s\<lparr>payload := payload_set_es ve (payload s)\<rparr>)) = ve"
    using assms by (simp add: payload_es_def payload_set_es_def)
  show "FloatSpecifier.endianness (payload_f (payload_set_es ve (payload s)))
         = EndiannessSpecifier.endianness ve"
    using assms by (simp add: payload_f_def payload_set_es_def)
qed simp_all

theorem BinarySpecifier_payload_unchecked_witness:
  "length (payload bytes_unit8) = 16
   \<and> payload_us (payload (bytes_unit8\<lparr>payload :=
        payload_set_us \<lparr> UnitSpecifier.unit = 1 \<rparr> (payload bytes_unit8)\<rparr>))
       = \<lparr> UnitSpecifier.unit = 1 \<rparr>
   \<and> BinarySpecifier.tag (bytes_unit8\<lparr>payload := zero_payload\<rparr>) = Bytes"
proof -
  have l: "length (payload bytes_unit8) = 16"
    by (simp add: bytes_unit8_def payload_set_us_def zero_payload_def)
  have t: "BinarySpecifier.tag bytes_unit8 = Bytes" by (simp add: bytes_unit8_def)
  from BinarySpecifier_payload_unchecked [OF l, of _ _ "\<lparr> UnitSpecifier.unit = 1 \<rparr>" _ _ zero_payload] l t
  show ?thesis by simp
qed

subsection \<open>The claim about the pattern classes\<close>

lemmas pattern_defs = MatchPattern_def AnyPattern_def ConsPattern_def TuplePattern_def
  MapPattern_def IsTypePattern_def ValuePattern_def BinaryPattern_def getKind_def
  MatchPattern.extend_def TuplePattern.fields_def MapPattern.fields_def
  IsTypePattern.fields_def ValuePattern.fields_def BinaryPattern.fields_def

lemmas classof_defs = AnyPattern_classof_def ConsPattern_classof_def TuplePattern_classof_def
  MapPattern_classof_def IsTypePattern_classof_def ValuePattern_classof_def
  BinaryPattern_classof_def

text \<open>
  Claim C10: a pattern built by one of the seven subclass constructors has the kind
  that constructor fixes; the \<open>classof\<close> of a subclass holds of a pattern exactly when
  the kind of the pattern is the tag of that subclass; so for every pattern exactly one
  of the seven \<open>classof\<close> tests holds.
\<close>

theorem MatchPattern_kinds:
  "getKind AnyPattern = Any \<and> getKind ConsPattern = Cons' \<and> getKind (TuplePattern a) = Tuple
   \<and> getKind (MapPattern k) = MapItem \<and> getKind (IsTypePattern ty) = IsType
   \<and> getKind (ValuePattern v) = Value \<and> getKind (BinaryPattern s sz) = Binary
   \<and> AnyPattern_classof p = (getKind p = Any)
   \<and> ConsPattern_classof p = (getKind p = Cons')
   \<and> TuplePattern_classof p = (getKind p = Tuple)
   \<and> MapPattern_classof p = (getKind p = MapItem)
   \<and> IsTypePattern_classof p = (getKind p = IsType)
   \<and> ValuePattern_classof p = (getKind p = Value)
   \<and> BinaryPattern_classof p = (getKind p = Binary)
   \<and> length (filter (\<lambda>classof. classof p) classofs) = 1"
proof -
  have "length (filter (\<lambda>classof. classof p) classofs) = 1"
    by (cases "getKind p") (simp_all add: classofs_def classof_defs)
  then show ?thesis by (simp add: pattern_defs classof_defs)
qed

theorem MatchPattern_kinds_witness:
  "getKind (TuplePattern 3) = Tuple \<and> TuplePattern_classof (TuplePattern 3)
   \<and> \<not> AnyPattern_classof (TuplePattern 3)
   \<and> length (filter (\<lambda>classof. classof (TuplePattern 3)) classofs) = 1"
  using MatchPattern_kinds [of 3 _ _ _ _ _ "TuplePattern 3"]
  by simp

section \<open>Properties of the modelled routines\<close>

subsection \<open>The claim about closures\<close>

text \<open>
  Claim C8: a closure built with the captured environment \<open>v1, ..., vN\<close> (\<open>N\<close> fits
  the 32-bit count \<open>envLen\<close>) reads back exactly these values in this order, as a whole
  and position by position.
\<close>

theorem Closure_env_order:
  assumes "length vs < 2 ^ 32" and "captureEnv c p vs h = (c', h')"
  shows "readEnv c' h' = vs \<and> (\<forall>i < length vs. envAt c' h' i = Some (vs ! i))
     \<and> unat (envLen c') = length vs"
proof -
  from assms(1) have len: "unat (word_of_nat (length vs) :: 32 word) = length vs"
    by (simp add: unat_of_nat)
  from assms(2) have c': "c' = c\<lparr> env := p, envLen := word_of_nat (length vs) \<rparr>"
    and h': "h' = storeArray p vs h" by (simp_all add: captureEnv_def)
  have "readEnv c' h' = map (\<lambda>i. vs ! i) [0..<length vs]"
    unfolding readEnv_def c' h' by (simp add: len storeArray_def)
  then have "readEnv c' h' = vs" by (simp add: map_nth)
  moreover have "\<forall>i < length vs. envAt c' h' i = Some (vs ! i)"
    unfolding envAt_def c' h' by (simp add: len storeArray_def)
  moreover have "unat (envLen c') = length vs" unfolding c' by (simp add: len)
  ultimately show ?thesis by blast
qed

theorem Closure_env_order_witness:
  "readEnv (fst (captureEnv closure0 100 [11, 12, 13] store0))
           (snd (captureEnv closure0 100 [11, 12, 13] store0)) = [11, 12, 13]
   \<and> envAt (fst (captureEnv closure0 100 [11, 12, 13] store0))
           (snd (captureEnv closure0 100 [11, 12, 13] store0)) 1 = Some 12"
proof -
  have l: "length [11, 12, 13 :: nat] < 2 ^ 32" by simp
  have e: "captureEnv closure0 100 [11, 12, 13] store0
      = (fst (captureEnv closure0 100 [11, 12, 13] store0),
         snd (captureEnv closure0 100 [11, 12, 13] store0))" by simp
  from Closure_env_order [OF l e] show ?thesis by simp
qed


subsection \<open>The claim about matches\<close>

lemma firstMatch_iff:
  "firstMatch rt t bs = Some r \<longleftrightarrow>
     (\<exists>i < length bs. matches rt (pattern (bs ! i)) t
        \<and> (\<forall>j < i. \<not> matches rt (pattern (bs ! j)) t)
        \<and> r = (dest (bs ! i), take (destArgc (bs ! i)) (destArgv (bs ! i))))"
  (is "_ \<longleftrightarrow> ?P bs")
proof (induction bs)
  case Nil
  then show ?case by simp
next
  case (Cons b bs)
  show ?case
  proof (cases "matches rt (pattern b) t")
    case True
    have "?P (b # bs) \<longleftrightarrow> r = (dest b, take (destArgc b) (destArgv b))"
    proof
      assume "?P (b # bs)"
      then obtain i where i: "\<forall>j < i. \<not> matches rt (pattern ((b # bs) ! j)) t"
        "r = (dest ((b # bs) ! i), take (destArgc ((b # bs) ! i)) (destArgv ((b # bs) ! i)))"
        by blast
      from i(1) True have "i = 0" by (cases i) auto
      with i(2) show "r = (dest b, take (destArgc b) (destArgv b))" by simp
    next
      assume "r = (dest b, take (destArgc b) (destArgv b))"
      with True show "?P (b # bs)" by (intro exI [of _ 0]) simp
    qed
    with True show ?thesis by auto
  next
    case False
    have "?P (b # bs) \<longleftrightarrow> ?P bs"
    proof
      assume "?P (b # bs)"
      then obtain i where i: "i < length (b # bs)" "matches rt (pattern ((b # bs) ! i)) t"
        "\<forall>j < i. \<not> matches rt (pattern ((b # bs) ! j)) t"
        "r = (dest ((b # bs) ! i), take (destArgc ((b # bs) ! i)) (destArgv ((b # bs) ! i)))"
        by blast
      from i(2) False obtain k where k: "i = Suc k" by (cases i) auto
      from i(3) k have "\<forall>j < k. \<not> matches rt (pattern (bs ! j)) t" by auto
      with i k show "?P bs" by (intro exI [of _ k]) simp
    next
      assume "?P bs"
      then obtain k where k: "k < length bs" "matches rt (pattern (bs ! k)) t"
        "\<forall>j < k. \<not> matches rt (pattern (bs ! j)) t"
        "r = (dest (bs ! k), take (destArgc (bs ! k)) (destArgv (bs ! k)))" by blast
      have "\<forall>j < Suc k. \<not> matches rt (pattern ((b # bs) ! j)) t"
        using False k(3) by (auto simp: nth_Cons')
      with k show "?P (b # bs)" by (intro exI [of _ "Suc k"]) simp
    qed
    with False Cons.IH show ?thesis by simp
  qed
qed

lemmas match_defs = dispatch_def match_value_any_def match_any_value_def branch_value5_def
  branch_any_def rt5_def

text \<open>
  Claim C3: the branch a match takes is the first branch in list order whose pattern
  matches the selector, and control goes to the destination block of that branch with
  the arguments of that branch. The order decides: with the branches
  \<open>[Value(5) -> Bt, Any -> Ba]\<close> the selector 5 goes to \<open>Bt\<close> (block 10), with
  \<open>[Any -> Ba, Value(5) -> Bt]\<close> it goes to \<open>Ba\<close> (block 20).
\<close>

theorem Match_first_match_wins:
  "(dispatch rt m = Some r \<longleftrightarrow>
      (\<exists>i < length (take (numBranches m) (branches m)).
         matches rt (pattern (branches m ! i)) (valueOf rt (selector m))
         \<and> (\<forall>j < i. \<not> matches rt (pattern (branches m ! j)) (valueOf rt (selector m)))
         \<and> r = (dest (branches m ! i), take (destArgc (branches m ! i)) (destArgv (branches m ! i)))))
   \<and> dispatch rt5 match_value_any = Some (10, [0])
   \<and> dispatch rt5 match_any_value = Some (20, [])"
proof (intro conjI)
  show "dispatch rt m = Some r \<longleftrightarrow>
      (\<exists>i < length (take (numBranches m) (branches m)).
         matches rt (pattern (branches m ! i)) (valueOf rt (selector m))
         \<and> (\<forall>j < i. \<not> matches rt (pattern (branches m ! j)) (valueOf rt (selector m)))
         \<and> r = (dest (branches m ! i), take (destArgc (branches m ! i)) (destArgv (branches m ! i))))"
    unfolding dispatch_def firstMatch_iff by auto
  show "dispatch rt5 match_value_any = Some (10, [0])"
    by (simp add: match_defs)
  show "dispatch rt5 match_any_value = Some (20, [])"
    by (simp add: match_defs)
qed

theorem Match_first_match_wins_witness:
  "dispatch rt5 match_value_any = Some (10, [0])
   \<and> (\<exists>i < 2. matches rt5 (pattern (branches match_value_any ! i)) (TInt 5)
         \<and> \<not> (\<exists>j < i. matches rt5 (pattern (branches match_value_any ! j)) (TInt 5))
         \<and> dest (branches match_value_any ! i) = 10)"
proof -
  have d: "dispatch rt5 match_value_any = Some (10, [0])" by (simp add: match_defs)
  from Match_first_match_wins [of rt5 match_value_any "(10, [0])"] d
  obtain i where "i < length (take (numBranches match_value_any) (branches match_value_any))"
    "matches rt5 (pattern (branches match_value_any ! i)) (valueOf rt5 (selector match_value_any))"
    "\<forall>j < i. \<not> matches rt5 (pattern (branches match_value_any ! j)) (valueOf rt5 (selector match_value_any))"
    "(10, [0]) = (dest (branches match_value_any ! i),
        take (destArgc (branches match_value_any ! i)) (destArgv (branches match_value_any ! i)))"
    by blast
  then have "i < 2 \<and> matches rt5 (pattern (branches match_value_any ! i)) (TInt 5)
         \<and> \<not> (\<exists>j < i. matches rt5 (pattern (branches match_value_any ! j)) (TInt 5))
         \<and> dest (branches match_value_any ! i) = 10"
    by (simp add: match_value_any_def rt5_def)
  with d show ?thesis by blast
qed

subsection \<open>The claim about map updates\<close>

lemma evaluatedFrom_0 [simp]: "evaluatedFrom j 0 = []"
  by (simp add: evaluatedFrom_def)

lemma evaluatedFrom_Suc [simp]: "evaluatedFrom j (Suc n) = Evaluated j # evaluatedFrom (Suc j) n"
proof -
  have "[j..<j + Suc n] = j # [Suc j..<j + Suc n]" by (rule upt_conv_Cons) simp
  then show ?thesis by (simp add: evaluatedFrom_def del: upt_Suc)
qed

lemma mapAfter_Cons [simp]: "mapAfter rt m (a # as) = mapAfter rt (applyAction rt m a) as"
  by (simp add: mapAfter_def)

lemma mapAfter_Nil [simp]: "mapAfter rt m [] = m"
  by (simp add: mapAfter_def)

lemma lowerActions_wf:
  "(\<forall>a \<in> set as. action a \<noteq> Unknown) \<Longrightarrow> \<exists>ops. lowerActions as = Inr ops"
  by (induction as) (auto split: MapActionType.splits sum.splits)

lemma execOps_all_ok:
  "lowerActions as = Inr ops \<Longrightarrow>
   (\<forall>i < length as. precond rt (mapAfter rt m (take i as)) (as ! i)) \<Longrightarrow>
   execOps rt okB errB j ops m =
     evaluatedFrom j (length as) @ [ReachedOk okB (mapAfter rt m as)]"
proof (induction as arbitrary: ops j m)
  case Nil
  then show ?case by simp
next
  case (Cons a as)
  from Cons.prems(2) have p0: "precond rt m a" by fastforce
  have rest: "\<forall>i < length as. precond rt (mapAfter rt (applyAction rt m a) (take i as)) (as ! i)"
  proof (intro allI impI)
    fix i assume "i < length as"
    then have "Suc i < length (a # as)" by simp
    with Cons.prems(2) have "precond rt (mapAfter rt m (take (Suc i) (a # as))) ((a # as) ! Suc i)"
      by blast
    then show "precond rt (mapAfter rt (applyAction rt m a) (take i as)) (as ! i)" by simp
  qed
  from Cons.prems(1) obtain ops' where ops': "lowerActions as = Inr ops'"
    by (auto split: MapActionType.splits sum.splits)
  show ?case
  proof (cases "action a")
    case Unknown
    with Cons.prems(1) show ?thesis by simp
  next
    case Insert
    with Cons.prems(1) ops' have "ops = MapInsertOp (MapAction.key a) (MapAction.val a) # ops'"
      by simp
    then show ?thesis
      using Cons.IH [OF ops' rest, of "Suc j"] by (simp add: applyAction_def)
  next
    case Update
    with Cons.prems(1) ops' have "ops = MapUpdateOp (MapAction.key a) (MapAction.val a) # ops'"
      by simp
    moreover from p0 Update have "valueOf rt (MapAction.key a) \<in> fst ` set m"
      by (simp add: precond_def)
    ultimately show ?thesis
      using Cons.IH [OF ops' rest, of "Suc j"] by (simp add: applyAction_def)
  qed
qed

lemma execOps_first_failure:
  "lowerActions as = Inr ops \<Longrightarrow> k < length as \<Longrightarrow>
   (\<forall>i < k. precond rt (mapAfter rt m (take i as)) (as ! i)) \<Longrightarrow>
   \<not> precond rt (mapAfter rt m (take k as)) (as ! k) \<Longrightarrow>
   execOps rt okB errB j ops m = evaluatedFrom j (Suc k) @ [ReachedErr errB]"
proof (induction as arbitrary: ops j m k)
  case Nil
  then show ?case by simp
next
  case (Cons a as)
  from Cons.prems(1) obtain ops' where ops': "lowerActions as = Inr ops'"
    by (auto split: MapActionType.splits sum.splits)
  show ?case
  proof (cases k)
    case 0
    with Cons.prems(4) have np: "\<not> precond rt m a" by simp
    show ?thesis
    proof (cases "action a")
      case Unknown
      with Cons.prems(1) show ?thesis by simp
    next
      case Insert
      with np show ?thesis by (simp add: precond_def)
    next
      case Update
      with Cons.prems(1) ops' have "ops = MapUpdateOp (MapAction.key a) (MapAction.val a) # ops'"
        by simp
      moreover from np Update have "valueOf rt (MapAction.key a) \<notin> fst ` set m"
        by (simp add: precond_def)
      ultimately show ?thesis using 0 by simp
    qed
  next
    case (Suc k')
    from Cons.prems(3) Suc have p0: "precond rt m a" by fastforce
    from Cons.prems(2) Suc have k': "k' < length as" by simp
    have rest: "\<forall>i < k'. precond rt (mapAfter rt (applyAction rt m a) (take i as)) (as ! i)"
    proof (intro allI impI)
      fix i assume "i < k'"
      then have "Suc i < k" using Suc by simp
      with Cons.prems(3) have "precond rt (mapAfter rt m (take (Suc i) (a # as))) ((a # as) ! Suc i)"
        by blast
      then show "precond rt (mapAfter rt (applyAction rt m a) (take i as)) (as ! i)" by simp
    qed
    from Cons.prems(4) Suc
    have fail: "\<not> precond rt (mapAfter rt (applyAction rt m a) (take k' as)) (as ! k')" by simp
    note IH = Cons.IH [OF ops' k' rest fail, of "Suc j"]
    show ?thesis
    proof (cases "action a")
      case Unknown
      with Cons.prems(1) show ?thesis by simp
    next
      case Insert
      with Cons.prems(1) ops' have "ops = MapInsertOp (MapAction.key a) (MapAction.val a) # ops'"
        by simp
      then show ?thesis using IH Suc by (simp add: applyAction_def)
    next
      case Update
      with Cons.prems(1) ops' have "ops = MapUpdateOp (MapAction.key a) (MapAction.val a) # ops'"
        by simp
      moreover from p0 Update have "valueOf rt (MapAction.key a) \<in> fst ` set m"
        by (simp add: precond_def)
      ultimately show ?thesis using IH Suc by (simp add: applyAction_def)
    qed
  qed
qed

lemma transfers_evaluatedFrom [simp]: "filter isTransfer (evaluatedFrom j n) = []"
  by (induction n arbitrary: j) (simp_all add: isTransfer_def)

text \<open>
  Claim C4: for a map update whose actions are inserts and updates, the emitted code
  evaluates the actions in sequence order and short-circuits. If every action meets
  its precondition on the map the actions before it have produced, the actions
  \<open>0, ..., n - 1\<close> are evaluated in this order and control reaches the ok-block, once,
  with the resulting map, and never the err-block. If action \<open>k\<close> is the first whose
  precondition fails, the actions \<open>0, ..., k\<close> are evaluated, control reaches the
  err-block, once, and no later action is evaluated.
\<close>

theorem MapUpdate_short_circuit:
  fixes u :: MapUpdate and rt :: Runtime and m :: rtmap
  defines "as \<equiv> take (actionsc u) (actionsv u)"
  assumes wf: "\<forall>a \<in> set as. action a \<noteq> Unknown"
  shows "\<exists>code. lowerMapUpdate u = Inr code
     \<and> ((\<forall>i < length as. precond rt (mapAfter rt m (take i as)) (as ! i)) \<longrightarrow>
          runMapUpdate rt code m
            = map Evaluated [0..<length as] @ [ReachedOk (ok u) (mapAfter rt m as)]
          \<and> filter isTransfer (runMapUpdate rt code m) = [ReachedOk (ok u) (mapAfter rt m as)])
     \<and> (\<forall>k < length as.
          (\<forall>i < k. precond rt (mapAfter rt m (take i as)) (as ! i))
          \<and> \<not> precond rt (mapAfter rt m (take k as)) (as ! k) \<longrightarrow>
          runMapUpdate rt code m = map Evaluated [0..<Suc k] @ [ReachedErr (err u)]
          \<and> filter isTransfer (runMapUpdate rt code m) = [ReachedErr (err u)])"
proof -
  from wf obtain ops where ops: "lowerActions as = Inr ops"
    using lowerActions_wf by blast
  define code where "code = \<lparr> mapOperand = map' u, mapOps = ops, okDest = ok u, errDest = err u \<rparr>"
  have low: "lowerMapUpdate u = Inr code"
    using ops by (simp add: lowerMapUpdate_def as_def code_def)
  have run: "runMapUpdate rt code m = execOps rt (ok u) (err u) 0 ops m"
    by (simp add: runMapUpdate_def code_def)
  have ev: "\<And>n. map Evaluated [0..<n] = evaluatedFrom 0 n"
    by (simp add: evaluatedFrom_def)
  have okc: "runMapUpdate rt code m
            = map Evaluated [0..<length as] @ [ReachedOk (ok u) (mapAfter rt m as)]
          \<and> filter isTransfer (runMapUpdate rt code m) = [ReachedOk (ok u) (mapAfter rt m as)]"
    if "\<forall>i < length as. precond rt (mapAfter rt m (take i as)) (as ! i)"
    unfolding run ev execOps_all_ok [OF ops that] by (simp add: isTransfer_def)
  have errc: "runMapUpdate rt code m = map Evaluated [0..<Suc k] @ [ReachedErr (err u)]
          \<and> filter isTransfer (runMapUpdate rt code m) = [ReachedErr (err u)]"
    if "k < length as" "\<forall>i < k. precond rt (mapAfter rt m (take i as)) (as ! i)"
       "\<not> precond rt (mapAfter rt m (take k as)) (as ! k)" for k
    unfolding run ev execOps_first_failure [OF ops that] by (simp add: isTransfer_def)
  from low okc errc show ?thesis by blast
qed

lemma update3_actions:
  "take (actionsc update3) (actionsv update3)
     = [\<lparr> action = Insert, MapAction.key = 1, MapAction.val = 2 \<rparr>,
        \<lparr> action = Update, MapAction.key = 1, MapAction.val = 3 \<rparr>,
        \<lparr> action = Update, MapAction.key = 9, MapAction.val = 4 \<rparr>]"
  by (simp add: update3_def)

lemma update2_actions:
  "take (actionsc update2) (actionsv update2)
     = [\<lparr> action = Insert, MapAction.key = 1, MapAction.val = 2 \<rparr>,
        \<lparr> action = Update, MapAction.key = 1, MapAction.val = 3 \<rparr>]"
  by (simp add: update2_def update3_def)

theorem MapUpdate_short_circuit_witness:
  "(\<exists>code. lowerMapUpdate update2 = Inr code
      \<and> runMapUpdate rtId code [] = [Evaluated 0, Evaluated 1, ReachedOk 10 [(TInt 1, TInt 3)]])
   \<and> (\<exists>code. lowerMapUpdate update3 = Inr code
      \<and> runMapUpdate rtId code [] = [Evaluated 0, Evaluated 1, Evaluated 2, ReachedErr 20])"
proof (intro conjI)
  let ?as = "take (actionsc update2) (actionsv update2)"
  have wf: "\<forall>a \<in> set ?as. action a \<noteq> Unknown"
    unfolding update2_actions by simp
  have pre: "\<forall>i < length ?as. precond rtId (mapAfter rtId [] (take i ?as)) (?as ! i)"
    unfolding update2_actions
    by (simp add: less_Suc_eq precond_def applyAction_def rtId_def)
  have res: "mapAfter rtId [] ?as = [(TInt 1, TInt 3)]"
    unfolding update2_actions by (simp add: applyAction_def rtId_def)
  have upt: "map Evaluated [0..<length ?as] = [Evaluated 0, Evaluated 1]"
    unfolding update2_actions by (simp add: upt_rec)
  have okb: "ok update2 = 10" by (simp add: update2_def update3_def)
  from MapUpdate_short_circuit [of update2 rtId "[]", OF wf]
  obtain code where low: "lowerMapUpdate update2 = Inr code"
    and okc: "(\<forall>i < length ?as. precond rtId (mapAfter rtId [] (take i ?as)) (?as ! i)) \<longrightarrow>
          runMapUpdate rtId code []
            = map Evaluated [0..<length ?as] @ [ReachedOk (ok update2) (mapAfter rtId [] ?as)]
          \<and> filter isTransfer (runMapUpdate rtId code [])
            = [ReachedOk (ok update2) (mapAfter rtId [] ?as)]"
    by (elim exE conjE)
  from okc pre have "runMapUpdate rtId code []
            = map Evaluated [0..<length ?as] @ [ReachedOk (ok update2) (mapAfter rtId [] ?as)]"
    by (elim impE conjE)
  then have "runMapUpdate rtId code [] = [Evaluated 0, Evaluated 1, ReachedOk 10 [(TInt 1, TInt 3)]]"
    unfolding res upt okb by simp
  with low show "\<exists>code. lowerMapUpdate update2 = Inr code
      \<and> runMapUpdate rtId code [] = [Evaluated 0, Evaluated 1, ReachedOk 10 [(TInt 1, TInt 3)]]"
    by (intro exI conjI)
next
  let ?as = "take (actionsc update3) (actionsv update3)"
  have wf: "\<forall>a \<in> set ?as. action a \<noteq> Unknown"
    unfolding update3_actions by simp
  have k: "2 < length ?as" unfolding update3_actions by simp
  have pre: "\<forall>i < 2. precond rtId (mapAfter rtId [] (take i ?as)) (?as ! i)"
    unfolding update3_actions
    by (simp add: less_2_cases_iff precond_def applyAction_def rtId_def)
  have fail: "\<not> precond rtId (mapAfter rtId [] (take 2 ?as)) (?as ! 2)"
    unfolding update3_actions
    by (simp add: precond_def applyAction_def rtId_def numeral_2_eq_2)
  have upt: "map Evaluated [0..<Suc 2] = [Evaluated 0, Evaluated 1, Evaluated 2]"
    by (simp add: upt_rec)
  have errb: "err update3 = 20" by (simp add: update3_def)
  from MapUpdate_short_circuit [of update3 rtId "[]", OF wf]
  obtain code where low: "lowerMapUpdate update3 = Inr code"
    and errc: "\<forall>k < length ?as.
          (\<forall>i < k. precond rtId (mapAfter rtId [] (take i ?as)) (?as ! i))
          \<and> \<not> precond rtId (mapAfter rtId [] (take k ?as)) (?as ! k) \<longrightarrow>
          runMapUpdate rtId code [] = map Evaluated [0..<Suc k] @ [ReachedErr (err update3)]
          \<and> filter isTransfer (runMapUpdate rtId code []) = [ReachedErr (err update3)]"
    by (elim exE conjE)
  from errc [rule_format, of 2, OF k conjI [OF pre fail]]
  have "runMapUpdate rtId code [] = map Evaluated [0..<Suc 2] @ [ReachedErr (err update3)]"
    by (rule conjunct1)
  then have "runMapUpdate rtId code [] = [Evaluated 0, Evaluated 1, Evaluated 2, ReachedErr 20]"
    unfolding upt errb by simp
  with low show "\<exists>code. lowerMapUpdate update3 = Inr code
      \<and> runMapUpdate rtId code [] = [Evaluated 0, Evaluated 1, Evaluated 2, ReachedErr 20]"
    by (intro exI conjI)
qed


end
